theory Spec2Isabelle
  imports Main "HOL-Library.Signed_Division"
begin

section \<open>Data model\<close>

text \<open>
  The repository is a logspout adapter that ships container log lines to AWS CloudWatch
  Logs. Two source files are modelled: the adapter (\<^verbatim>\<open>cloudwatch.go\<close>), which tags every
  incoming line with a log group and a log stream, and the uploader
  (\<^verbatim>\<open>CloudwatchUploader\<close>), which posts every batch and tracks the sequence token
  the service asks for. The batcher between them is not modelled: the uploader takes
  the batches as they come.

  Go strings are \<^typ>\<open>string\<close>, a Go map is a partial function, a pointer that may be
  \<^verbatim>\<open>nil\<close> is an \<^typ>\<open>'a option\<close>, and \<^verbatim>\<open>int64\<close> values are integers (the one
  arithmetic operation of the code, a division by a positive constant, cannot overflow).
\<close>

text \<open>
  \<^verbatim>\<open>CloudwatchMessage\<close>, as the adapter builds it and the uploader reads it. \<open>Time\<close> is
  the value of \<^verbatim>\<open>msg.Time.UnixNano()\<close>: nanoseconds since the epoch.
\<close>

record CloudwatchMessage =
  Message :: string
  Group :: string
  Stream :: string
  Time :: int
  Container :: string

text \<open>\<^verbatim>\<open>CloudwatchBatch\<close>: the uploader reads \<^verbatim>\<open>Msgs\<close> and (for logging) \<^verbatim>\<open>Size\<close>.\<close>

record CloudwatchBatch =
  Msgs :: "CloudwatchMessage list"
  Size :: int

text \<open>\<^verbatim>\<open>cloudwatchlogs.InputLogEvent\<close>: message text and timestamp in milliseconds.\<close>

record InputLogEvent =
  ev_Message :: string
  ev_Timestamp :: int

text \<open>\<^verbatim>\<open>cloudwatchlogs.PutLogEventsInput\<close>.\<close>

record PutLogEventsInput =
  LogEvents :: "InputLogEvent list"
  LogGroupName :: string
  LogStreamName :: string
  SequenceToken :: "string option"

text \<open>
  \<^verbatim>\<open>cloudwatchlogs.LogStream\<close>, with the two fields the listing carries that matter
  here; the upload sequence token is absent for a stream nothing was appended to.
\<close>

record LogStream =
  ls_Name :: string
  UploadSequenceToken :: "string option"

text \<open>
  An error value of the uploader: either the error of a failed remote call (its message),
  or the error \<^verbatim>\<open>getSequenceToken\<close> makes itself when several streams match
  (\<^verbatim>\<open>"%d streams match group %s, stream %s!"\<close>, kept with its three arguments).
\<close>

datatype error =
    AwsError string
  | TooManyStreams nat string string

section \<open>The remote service\<close>

text \<open>
  Every request the uploader sends through \<^verbatim>\<open>u.svc\<close>, with its parameters.
\<close>

datatype call =
    Call_DescribeLogGroups string
  | Call_CreateLogGroup string
  | Call_PutRetentionPolicy string int
  | Call_DescribeLogStreams string string
  | Call_CreateLogStream string string
  | Call_PutLogEvents PutLogEventsInput

text \<open>
  The service is outside the repository. It is modelled as an arbitrary deterministic
  service: what it answers to a request is a function of the requests it has received
  before (the history, oldest first) and of the request. A failed call answers \<open>Inl\<close>
  with the error message. Theorems quantify over every such service.
\<close>

record CloudWatchLogs =
  DescribeLogGroups :: "call list \<Rightarrow> string \<Rightarrow> string + string list"
  CreateLogGroup :: "call list \<Rightarrow> string \<Rightarrow> string + unit"
  PutRetentionPolicy :: "call list \<Rightarrow> string \<Rightarrow> int \<Rightarrow> string + unit"
  DescribeLogStreams :: "call list \<Rightarrow> string \<Rightarrow> string \<Rightarrow> string + LogStream list"
  CreateLogStream :: "call list \<Rightarrow> string \<Rightarrow> string \<Rightarrow> string + unit"
  PutLogEvents :: "call list \<Rightarrow> PutLogEventsInput \<Rightarrow> string + string option"

section \<open>The adapter's state\<close>

text \<open>
  \<^verbatim>\<open>CloudwatchAdapter\<close>: the host names and the three caches. \<open>batcher_Input\<close> is the
  sequence of messages sent on \<^verbatim>\<open>a.batcher.Input\<close> so far, oldest first.
\<close>

record CloudwatchAdapter =
  OsHost :: string
  Ec2Region :: string
  Ec2Instance :: string
  groupnames :: "string \<rightharpoonup> string"
  streamnames :: "string \<rightharpoonup> string"
  retentiondays :: "string \<rightharpoonup> int"
  batcher_Input :: "CloudwatchMessage list"

section \<open>The uploader\<close>

text \<open>
  \<^verbatim>\<open>CloudwatchUploader\<close>: the token cache \<^verbatim>\<open>u.tokens\<close>, and the history of the
  requests sent through \<^verbatim>\<open>u.svc\<close>. Debug logging (\<^verbatim>\<open>u.log\<close>) has no effect on
  the control flow and is left out.
\<close>

record CloudwatchUploader =
  tokens :: "string \<rightharpoonup> string"
  history :: "call list"

text \<open>
  \<^verbatim>\<open>groupExists\<close>: lists the groups whose name starts with \<open>grp\<close> and looks for one
  whose name is \<open>grp\<close>. The \<^verbatim>\<open>for\<close> loop over \<^verbatim>\<open>resp.LogGroups\<close> is
  \<open>matchGroup\<close>.
\<close>

fun matchGroup :: "string list \<Rightarrow> string \<Rightarrow> bool" where
  "matchGroup [] grp = False"
| "matchGroup (matchedGroup # rest) grp =
     (if matchedGroup = grp then True else matchGroup rest grp)"

definition groupExists :: "CloudWatchLogs \<Rightarrow> string \<Rightarrow> call list \<Rightarrow> (error + bool) \<times> call list" where
  "groupExists svc grp h =
     (case DescribeLogGroups svc h grp of
        Inl err \<Rightarrow> (Inl (AwsError err), h @ [Call_DescribeLogGroups grp])
      | Inr LogGroups \<Rightarrow> (Inr (matchGroup LogGroups grp), h @ [Call_DescribeLogGroups grp]))"

text \<open>
  \<^verbatim>\<open>createGroup\<close>, \<^verbatim>\<open>createGroupRetentionPolicy\<close> and \<^verbatim>\<open>createStream\<close>: one
  request each; the result is the error, if any.
\<close>

definition createGroup :: "CloudWatchLogs \<Rightarrow> string \<Rightarrow> call list \<Rightarrow> error option \<times> call list" where
  "createGroup svc grp h =
     (case CreateLogGroup svc h grp of
        Inl err \<Rightarrow> (Some (AwsError err), h @ [Call_CreateLogGroup grp])
      | Inr _ \<Rightarrow> (None, h @ [Call_CreateLogGroup grp]))"

definition createGroupRetentionPolicy ::
  "CloudWatchLogs \<Rightarrow> string \<Rightarrow> int \<Rightarrow> call list \<Rightarrow> error option \<times> call list" where
  "createGroupRetentionPolicy svc grp retentionInDays h =
     (case PutRetentionPolicy svc h grp retentionInDays of
        Inl err \<Rightarrow> (Some (AwsError err), h @ [Call_PutRetentionPolicy grp retentionInDays])
      | Inr _ \<Rightarrow> (None, h @ [Call_PutRetentionPolicy grp retentionInDays]))"

definition createStream ::
  "CloudWatchLogs \<Rightarrow> string \<Rightarrow> string \<Rightarrow> call list \<Rightarrow> error option \<times> call list" where
  "createStream svc grp strm h =
     (case CreateLogStream svc h grp strm of
        Inl err \<Rightarrow> (Some (AwsError err), h @ [Call_CreateLogStream grp strm])
      | Inr _ \<Rightarrow> (None, h @ [Call_CreateLogStream grp strm]))"

text \<open>
  \<^verbatim>\<open>getSequenceToken\<close>. The function calls itself after it has created a stream, and
  nothing in the code bounds how often: it is a partial function, \<open>None\<close> when it does
  not return. When it returns, the result is the error or the token of the one matching
  stream (possibly absent), with the history of requests extended.
\<close>

partial_function (option) getSequenceToken ::
  "CloudWatchLogs \<Rightarrow> CloudwatchAdapter \<Rightarrow> CloudwatchMessage \<Rightarrow> call list
     \<Rightarrow> ((error + string option) \<times> call list) option" where
  "getSequenceToken svc adapter msg h =
     (case groupExists svc (Group msg) h of
        (Inl err, h1) \<Rightarrow> Some (Inl err, h1)
      | (Inr found, h1) \<Rightarrow>
          (case (if \<not> found then
                   (case createGroup svc (Group msg) h1 of
                      (Some err, h2) \<Rightarrow> (Some err, h2)
                    | (None, h2) \<Rightarrow>
                        (case retentiondays adapter (Group msg) of
                           Some retentionDays \<Rightarrow>
                             createGroupRetentionPolicy svc (Group msg) retentionDays h2
                         | None \<Rightarrow> (None, h2)))
                 else (None, h1)) of
             (Some err, h3) \<Rightarrow> Some (Inl err, h3)
           | (None, h3) \<Rightarrow>
               (case DescribeLogStreams svc h3 (Group msg) (Stream msg) of
                  Inl err \<Rightarrow>
                    Some (Inl (AwsError err), h3 @ [Call_DescribeLogStreams (Group msg) (Stream msg)])
                | Inr LogStreams \<Rightarrow>
                    if length LogStreams > 1 then
                      Some (Inl (TooManyStreams (length LogStreams) (Group msg) (Stream msg)),
                            h3 @ [Call_DescribeLogStreams (Group msg) (Stream msg)])
                    else if length LogStreams = 0 then
                      (case createStream svc (Group msg) (Stream msg)
                              (h3 @ [Call_DescribeLogStreams (Group msg) (Stream msg)]) of
                         (Some err, h4) \<Rightarrow> Some (Inl err, h4)
                       | (None, h4) \<Rightarrow> getSequenceToken svc adapter msg h4)
                    else
                      Some (Inr (UploadSequenceToken (LogStreams ! 0)),
                            h3 @ [Call_DescribeLogStreams (Group msg) (Stream msg)]))))"

text \<open>
  The body of \<^verbatim>\<open>Start\<close>'s loop, in its two halves.

  Lines 66 to 83: the token for this batch. The cache \<^verbatim>\<open>u.tokens\<close> is read and written
  at the key \<^verbatim>\<open>msg.Container\<close>, where \<open>msg\<close> is the first message of the batch.
  The result is \<open>None\<close> when \<open>getSequenceToken\<close> does not return, \<open>Inl\<close> when it
  returns an error (the loop then takes \<^verbatim>\<open>continue\<close>), and otherwise the token to send,
  absent or not.
\<close>

definition Start_token ::
  "CloudWatchLogs \<Rightarrow> CloudwatchAdapter \<Rightarrow> CloudwatchUploader \<Rightarrow> CloudwatchMessage
     \<Rightarrow> ((error + string option) \<times> CloudwatchUploader) option" where
  "Start_token svc adapter u msg =
     (case tokens u (Container msg) of
        Some cachedToken \<Rightarrow> Some (Inr (Some cachedToken), u)
      | None \<Rightarrow>
          (case getSequenceToken svc adapter msg (history u) of
             None \<Rightarrow> None
           | Some (Inl err, h) \<Rightarrow> Some (Inl err, u\<lparr>history := h\<rparr>)
           | Some (Inr awsToken, h) \<Rightarrow>
               (case awsToken of
                  Some t \<Rightarrow>
                    Some (Inr (Some t),
                          u\<lparr>tokens := (tokens u)(Container msg \<mapsto> t), history := h\<rparr>)
                | None \<Rightarrow> Some (Inr None, u\<lparr>history := h\<rparr>))))"

text \<open>
  Lines 85 to 93: one event for each message of the batch, appended in turn. Go's
  \<^verbatim>\<open>/\<close> on \<^verbatim>\<open>int64\<close> truncates towards zero, which is \<open>sdiv\<close>.
\<close>

fun buildEvents :: "InputLogEvent list \<Rightarrow> CloudwatchMessage list \<Rightarrow> InputLogEvent list" where
  "buildEvents events [] = events"
| "buildEvents events (msg # rest) =
     buildEvents
       (events @ [\<lparr>ev_Message = Message msg, ev_Timestamp = Time msg sdiv 1000000\<rparr>]) rest"

text \<open>
  Lines 94 to 113: the request is built and sent once. On an error the loop goes on to
  the next batch; on success the next sequence token, when the response has one, is
  stored at the key \<^verbatim>\<open>msg.Container\<close>.
\<close>

definition Start_post ::
  "CloudWatchLogs \<Rightarrow> CloudwatchUploader \<Rightarrow> CloudwatchBatch \<Rightarrow> CloudwatchMessage
     \<Rightarrow> string option \<Rightarrow> CloudwatchUploader" where
  "Start_post svc u batch msg token =
     (let events = buildEvents [] (Msgs batch);
          params = \<lparr>LogEvents = events, LogGroupName = Group msg,
                    LogStreamName = Stream msg, SequenceToken = token\<rparr>
      in case PutLogEvents svc (history u) params of
           Inl err \<Rightarrow> u\<lparr>history := history u @ [Call_PutLogEvents params]\<rparr>
         | Inr NextSequenceToken \<Rightarrow>
             (case NextSequenceToken of
                Some t \<Rightarrow>
                  u\<lparr>tokens := (tokens u)(Container msg \<mapsto> t),
                    history := history u @ [Call_PutLogEvents params]\<rparr>
              | None \<Rightarrow> u\<lparr>history := history u @ [Call_PutLogEvents params]\<rparr>))"

definition Start_step ::
  "CloudWatchLogs \<Rightarrow> CloudwatchAdapter \<Rightarrow> CloudwatchUploader \<Rightarrow> CloudwatchBatch
     \<Rightarrow> CloudwatchUploader option" where
  "Start_step svc adapter u batch =
     (if length (Msgs batch) = 0 then Some u
      else
        (case Start_token svc adapter u (Msgs batch ! 0) of
           None \<Rightarrow> None
         | Some (Inl err, u1) \<Rightarrow> Some u1
         | Some (Inr token, u1) \<Rightarrow> Some (Start_post svc u1 batch (Msgs batch ! 0) token)))"

text \<open>
  \<^verbatim>\<open>Start\<close>: the loop over the batches received on \<^verbatim>\<open>u.Input\<close>, here the list of
  the batches in the order they arrive. The result is \<open>None\<close> when the loop is stuck in
  a batch whose token resolution does not return.
\<close>

fun Start ::
  "CloudWatchLogs \<Rightarrow> CloudwatchAdapter \<Rightarrow> CloudwatchUploader \<Rightarrow> CloudwatchBatch list
     \<Rightarrow> CloudwatchUploader option" where
  "Start svc adapter u [] = Some u"
| "Start svc adapter u (batch # rest) =
     (case Start_step svc adapter u batch of
        None \<Rightarrow> None
      | Some u1 \<Rightarrow> Start svc adapter u1 rest)"

section \<open>The adapter\<close>

text \<open>
  \<^verbatim>\<open>router.Message\<close> with the fields of its container that \<^verbatim>\<open>Stream\<close> reads.
\<close>

record router_Message =
  Container_ID :: string
  Container_Name :: string
  Container_Config_Env :: "string list"
  Container_Config_Hostname :: string
  Data :: string

text \<open>\<^verbatim>\<open>RenderContext\<close>, as \<^verbatim>\<open>Stream\<close> fills it.\<close>

record RenderContext =
  Env :: "string \<rightharpoonup> string"
  Labels :: "string \<rightharpoonup> string"
  Name :: string
  ID :: string
  Host :: string
  LoggerHost :: string
  InstanceID :: string
  Region :: string

text \<open>
  What \<^verbatim>\<open>Stream\<close> calls and this repository's two source files do not define: the
  Docker client's \<^verbatim>\<open>InspectContainer\<close> (the error, or the labels of the container's
  configuration, the one field read), \<^verbatim>\<open>parseEnv\<close>, \<^verbatim>\<open>renderEnvValue\<close> and Go's
  \<^verbatim>\<open>strconv.ParseInt\<close> in base 10 and 64 bits. They are parameters.
\<close>

record collaborators =
  InspectContainer :: "string \<Rightarrow> string + (string \<rightharpoonup> string)"
  parseEnv :: "string list \<Rightarrow> (string \<rightharpoonup> string)"
  renderEnvValue :: "string \<Rightarrow> RenderContext \<Rightarrow> string \<Rightarrow> string"
  ParseInt :: "string \<Rightarrow> string + int"

text \<open>\<^verbatim>\<open>strings.TrimPrefix\<close>.\<close>

definition TrimPrefix :: "string \<Rightarrow> string \<Rightarrow> string" where
  "TrimPrefix s pre = (if take (length pre) s = pre then drop (length pre) s else s)"

text \<open>
  The body of \<^verbatim>\<open>Stream\<close>'s loop for one message \<open>m\<close>; \<open>now\<close> is what
  \<^verbatim>\<open>time.Now()\<close> reads when the message is sent on. A lookup of a missing key leaves
  the Go variable at its zero value, the empty string.
\<close>

definition Stream_step ::
  "collaborators \<Rightarrow> CloudwatchAdapter \<Rightarrow> router_Message \<Rightarrow> int \<Rightarrow> CloudwatchAdapter" where
  "Stream_step c a m now =
     (let groupName = (case groupnames a (Container_ID m) of
                         Some cachedGroup \<Rightarrow> cachedGroup | None \<Rightarrow> '''');
          streamName = (case streamnames a (Container_ID m) of
                          Some cachedStream \<Rightarrow> cachedStream | None \<Rightarrow> '''')
      in
        if streamName = '''' \<or> groupName = '''' then
          (case InspectContainer c (Container_ID m) of
             Inl err \<Rightarrow> a
           | Inr containerLabels \<Rightarrow>
               (let context = \<lparr>Env = parseEnv c (Container_Config_Env m),
                               Labels = containerLabels,
                               Name = TrimPrefix (Container_Name m) ''/'',
                               ID = Container_ID m,
                               Host = Container_Config_Hostname m,
                               LoggerHost = OsHost a,
                               InstanceID = Ec2Instance a,
                               Region = Ec2Region a\<rparr>;
                    groupName = renderEnvValue c ''LOGSPOUT_GROUP'' context (OsHost a);
                    streamName = renderEnvValue c ''LOGSPOUT_STREAM'' context (Name context);
                    a1 = a\<lparr>groupnames := (groupnames a)(Container_ID m \<mapsto> groupName),
                           streamnames := (streamnames a)(Container_ID m \<mapsto> streamName)\<rparr>;
                    retentionDays =
                      renderEnvValue c ''LOGSPOUT_CLOUDWATCH_RETENTION_DAYS'' context '''';
                    a2 = (if retentionDays \<noteq> '''' then
                            (case ParseInt c retentionDays of
                               Inr retentionDaysInt \<Rightarrow>
                                 a1\<lparr>retentiondays :=
                                       (retentiondays a1)(groupName \<mapsto> retentionDaysInt)\<rparr>
                             | Inl err \<Rightarrow> a1)
                          else a1)
                in a2\<lparr>batcher_Input := batcher_Input a2 @
                         [\<lparr>Message = Data m, Group = groupName, Stream = streamName,
                           Time = now, Container = Container_ID m\<rparr>]\<rparr>))
        else
          a\<lparr>batcher_Input := batcher_Input a @
                [\<lparr>Message = Data m, Group = groupName, Stream = streamName,
                  Time = now, Container = Container_ID m\<rparr>]\<rparr>)"

text \<open>
  \<^verbatim>\<open>Stream\<close>: the loop over the incoming messages, each paired with the clock reading
  taken for it.
\<close>

fun Stream_loop ::
  "collaborators \<Rightarrow> CloudwatchAdapter \<Rightarrow> (router_Message \<times> int) list \<Rightarrow> CloudwatchAdapter" where
  "Stream_loop c a [] = a"
| "Stream_loop c a ((m, now) # rest) = Stream_loop c (Stream_step c a m now) rest"

section \<open>Derived notions used in the statements\<close>

text \<open>
  Lines 124 to 140 of \<^verbatim>\<open>getSequenceToken\<close> on their own: the group is looked up and,
  when it is missing, created and given its retention policy. The result is the error
  that ends \<^verbatim>\<open>getSequenceToken\<close>, if any, and the history. This is the same text as
  in \<open>getSequenceToken\<close> (lemma \<open>getSequenceToken_unfold\<close>); it only gives the phase a
  name.
\<close>

definition resolveGroup ::
  "CloudWatchLogs \<Rightarrow> CloudwatchAdapter \<Rightarrow> string \<Rightarrow> call list \<Rightarrow> error option \<times> call list" where
  "resolveGroup svc adapter grp h =
     (case groupExists svc grp h of
        (Inl err, h1) \<Rightarrow> (Some err, h1)
      | (Inr found, h1) \<Rightarrow>
          (if \<not> found then
             (case createGroup svc grp h1 of
                (Some err, h2) \<Rightarrow> (Some err, h2)
              | (None, h2) \<Rightarrow>
                  (case retentiondays adapter grp of
                     Some retentionDays \<Rightarrow> createGroupRetentionPolicy svc grp retentionDays h2
                   | None \<Rightarrow> (None, h2)))
           else (None, h1)))"

text \<open>The event \<^verbatim>\<open>Start\<close> builds for one message.\<close>

definition eventOf :: "CloudwatchMessage \<Rightarrow> InputLogEvent" where
  "eventOf msg = \<lparr>ev_Message = Message msg, ev_Timestamp = Time msg sdiv 1000000\<rparr>"

text \<open>The request \<^verbatim>\<open>Start\<close> builds for a batch, given the token.\<close>

definition paramsOf :: "CloudwatchBatch \<Rightarrow> string option \<Rightarrow> PutLogEventsInput" where
  "paramsOf batch token =
     \<lparr>LogEvents = map eventOf (Msgs batch), LogGroupName = Group (Msgs batch ! 0),
      LogStreamName = Stream (Msgs batch ! 0), SequenceToken = token\<rparr>"

text \<open>Kinds of request.\<close>

fun isPutLogEvents :: "call \<Rightarrow> bool" where
  "isPutLogEvents (Call_PutLogEvents _) = True"
| "isPutLogEvents _ = False"

fun isGroupCall :: "call \<Rightarrow> bool" where
  "isGroupCall (Call_DescribeLogGroups _) = True"
| "isGroupCall (Call_CreateLogGroup _) = True"
| "isGroupCall (Call_PutRetentionPolicy _ _) = True"
| "isGroupCall _ = False"

fun isDescribeLogStreams :: "call \<Rightarrow> bool" where
  "isDescribeLogStreams (Call_DescribeLogStreams _ _) = True"
| "isDescribeLogStreams _ = False"


section \<open>Concrete services and inputs\<close>

text \<open>
  A well-behaved service, as a function of the requests received: a group or a stream
  exists once it has been created, a listing returns the names with the given prefix,
  and an append is accepted when it carries the stream's current sequence token, which
  is absent before the first accepted append and changes with each one.
\<close>

fun created_groups :: "call list \<Rightarrow> string list" where
  "created_groups [] = []"
| "created_groups (Call_CreateLogGroup g # cs) = g # created_groups cs"
| "created_groups (_ # cs) = created_groups cs"

fun created_streams :: "call list \<Rightarrow> string \<Rightarrow> string list" where
  "created_streams [] g = []"
| "created_streams (Call_CreateLogStream g' s # cs) g =
     (if g' = g then s # created_streams cs g else created_streams cs g)"
| "created_streams (_ # cs) g = created_streams cs g"

definition token_of :: "nat \<Rightarrow> string option" where
  "token_of n = (if n = 0 then None else Some (''token-'' @ replicate n (CHR ''i'')))"

fun accepted :: "nat \<Rightarrow> call list \<Rightarrow> string \<Rightarrow> string \<Rightarrow> nat" where
  "accepted n [] g s = n"
| "accepted n (Call_PutLogEvents inp # cs) g s =
     accepted (if LogGroupName inp = g \<and> LogStreamName inp = s \<and> SequenceToken inp = token_of n
               then Suc n else n) cs g s"
| "accepted n (_ # cs) g s = accepted n cs g s"

definition aws :: CloudWatchLogs where
  "aws = \<lparr>
     DescribeLogGroups = (\<lambda>h p.
        Inr (filter (\<lambda>g. take (length p) g = p) (remdups (created_groups h)))),
     CreateLogGroup = (\<lambda>h g.
        if g \<in> set (created_groups h) then Inl ''ResourceAlreadyExistsException'' else Inr ()),
     PutRetentionPolicy = (\<lambda>h g d. Inr ()),
     DescribeLogStreams = (\<lambda>h g p.
        Inr (map (\<lambda>s. \<lparr>ls_Name = s, UploadSequenceToken = token_of (accepted 0 h g s)\<rparr>)
               (filter (\<lambda>s. take (length p) s = p) (remdups (created_streams h g))))),
     CreateLogStream = (\<lambda>h g s.
        if s \<in> set (created_streams h g) then Inl ''ResourceAlreadyExistsException'' else Inr ()),
     PutLogEvents = (\<lambda>h inp.
        if SequenceToken inp = token_of (accepted 0 h (LogGroupName inp) (LogStreamName inp))
        then Inr (token_of (Suc (accepted 0 h (LogGroupName inp) (LogStreamName inp))))
        else Inl ''InvalidSequenceTokenException'')\<rparr>"

text \<open>The same service, refusing every retention policy.\<close>

definition aws_retention_denied :: CloudWatchLogs where
  "aws_retention_denied = aws\<lparr>PutRetentionPolicy := (\<lambda>h g d. Inl ''AccessDeniedException'')\<rparr>"

text \<open>
  A service whose stream listing lags behind: it shows the stream only once two
  creation requests for the group have been received, and accepts each of them.
\<close>

definition aws_lagging :: CloudWatchLogs where
  "aws_lagging = aws\<lparr>
     DescribeLogStreams := (\<lambda>h g p.
        if length (created_streams h g) < 2 then Inr []
        else Inr [\<lparr>ls_Name = p, UploadSequenceToken = None\<rparr>]),
     CreateLogStream := (\<lambda>h g s. Inr ())\<rparr>"

text \<open>
  A service that has every group, whose stream listing never shows a stream, and that
  accepts every stream creation.
\<close>

definition aws_blind :: CloudWatchLogs where
  "aws_blind = \<lparr>
     DescribeLogGroups = (\<lambda>h p. Inr [p]),
     CreateLogGroup = (\<lambda>h g. Inl ''ResourceAlreadyExistsException''),
     PutRetentionPolicy = (\<lambda>h g d. Inr ()),
     DescribeLogStreams = (\<lambda>h g p. Inr []),
     CreateLogStream = (\<lambda>h g s. Inr ()),
     PutLogEvents = (\<lambda>h inp. Inr None)\<rparr>"


text \<open>
  A service that already has the group and the stream, the stream with the sequence
  token \<open>''T0''\<close>, and that fails every append.
\<close>

definition aws_append_down :: CloudWatchLogs where
  "aws_append_down = \<lparr>
     DescribeLogGroups = (\<lambda>h p. Inr [p]),
     CreateLogGroup = (\<lambda>h g. Inl ''ResourceAlreadyExistsException''),
     PutRetentionPolicy = (\<lambda>h g d. Inr ()),
     DescribeLogStreams = (\<lambda>h g p. Inr [\<lparr>ls_Name = p, UploadSequenceToken = Some ''T0''\<rparr>]),
     CreateLogStream = (\<lambda>h g s. Inl ''ResourceAlreadyExistsException''),
     PutLogEvents = (\<lambda>h inp. Inl ''ServiceUnavailableException'')\<rparr>"

text \<open>A listing for the prefix \<open>''app''\<close> that holds only longer names.\<close>

definition aws_longer_names :: CloudWatchLogs where
  "aws_longer_names = aws\<lparr>DescribeLogGroups := (\<lambda>h p. Inr [p @ ''-staging'', p @ ''lication''])\<rparr>"

text \<open>An adapter with a retention of seven days configured for the group \<open>''app''\<close>.\<close>

definition adapter0 :: CloudwatchAdapter where
  "adapter0 = \<lparr>OsHost = ''host'', Ec2Region = ''eu-west-1'', Ec2Instance = ''i-0'',
     groupnames = Map.empty, streamnames = Map.empty,
     retentiondays = [''app'' \<mapsto> 7], batcher_Input = []\<rparr>"

text \<open>A fresh uploader.\<close>

definition uploader0 :: CloudwatchUploader where
  "uploader0 = \<lparr>tokens = Map.empty, history = []\<rparr>"

text \<open>
  Batches for the destination \<open>(''app'', ''web-1'')\<close>: three messages of the container
  \<open>''c1''\<close>, one message of the container \<open>''c2''\<close>, and one more of \<open>''c1''\<close>.
\<close>

definition batch_c1 :: CloudwatchBatch where
  "batch_c1 = \<lparr>Msgs =
     [\<lparr>Message = ''one'', Group = ''app'', Stream = ''web-1'', Time = 1500000000123456789,
       Container = ''c1''\<rparr>,
      \<lparr>Message = ''two'', Group = ''app'', Stream = ''web-1'', Time = 1500000000123999999,
       Container = ''c1''\<rparr>,
      \<lparr>Message = ''three'', Group = ''app'', Stream = ''web-1'', Time = 1500000001000000000,
       Container = ''c1''\<rparr>],
     Size = 11\<rparr>"

definition batch_c2 :: CloudwatchBatch where
  "batch_c2 = \<lparr>Msgs =
     [\<lparr>Message = ''four'', Group = ''app'', Stream = ''web-1'', Time = 1500000002000000000,
       Container = ''c2''\<rparr>],
     Size = 4\<rparr>"

definition batch_c1_again :: CloudwatchBatch where
  "batch_c1_again = \<lparr>Msgs =
     [\<lparr>Message = ''five'', Group = ''app'', Stream = ''web-1'', Time = 1500000003000000000,
       Container = ''c1''\<rparr>],
     Size = 4\<rparr>"

text \<open>A Docker client that cannot inspect any container, and a message of a new container.\<close>

definition docker_down :: collaborators where
  "docker_down = \<lparr>
     InspectContainer = (\<lambda>id. Inl ''No such container''),
     parseEnv = (\<lambda>env. Map.empty),
     renderEnvValue = (\<lambda>key context default. default),
     ParseInt = (\<lambda>s. Inl ''invalid syntax'')\<rparr>"

definition line0 :: router_Message where
  "line0 = \<lparr>Container_ID = ''c1'', Container_Name = ''/web'', Container_Config_Env = [],
     Container_Config_Hostname = ''web'', Data = ''hello''\<rparr>"

section \<open>Auxiliary lemmas\<close>

text \<open>The two loops of the code, as list functions.\<close>

lemma matchGroup_iff: "matchGroup LogGroups grp = (grp \<in> set LogGroups)"
  by (induction LogGroups) auto

lemma buildEvents_append: "buildEvents events msgs = events @ map eventOf msgs"
  by (induction msgs arbitrary: events) (simp_all add: eventOf_def)

lemma Start_post_history:
  "history (Start_post svc u batch (Msgs batch ! 0) token) =
     history u @ [Call_PutLogEvents (paramsOf batch token)]"
  by (simp add: Start_post_def paramsOf_def buildEvents_append Let_def
      split: sum.splits option.splits)

text \<open>
  \<open>getSequenceToken\<close> in terms of \<open>resolveGroup\<close>: the group phase, then the stream
  listing with its four outcomes.
\<close>

lemma getSequenceToken_unfold:
  "getSequenceToken svc adapter msg h =
     (case resolveGroup svc adapter (Group msg) h of
        (Some err, h3) \<Rightarrow> Some (Inl err, h3)
      | (None, h3) \<Rightarrow>
          (case DescribeLogStreams svc h3 (Group msg) (Stream msg) of
             Inl err \<Rightarrow>
               Some (Inl (AwsError err), h3 @ [Call_DescribeLogStreams (Group msg) (Stream msg)])
           | Inr LogStreams \<Rightarrow>
               if length LogStreams > 1 then
                 Some (Inl (TooManyStreams (length LogStreams) (Group msg) (Stream msg)),
                       h3 @ [Call_DescribeLogStreams (Group msg) (Stream msg)])
               else if length LogStreams = 0 then
                 (case CreateLogStream svc
                         (h3 @ [Call_DescribeLogStreams (Group msg) (Stream msg)])
                         (Group msg) (Stream msg) of
                    Inl err \<Rightarrow>
                      Some (Inl (AwsError err),
                            h3 @ [Call_DescribeLogStreams (Group msg) (Stream msg),
                                  Call_CreateLogStream (Group msg) (Stream msg)])
                  | Inr _ \<Rightarrow>
                      getSequenceToken svc adapter msg
                        (h3 @ [Call_DescribeLogStreams (Group msg) (Stream msg),
                               Call_CreateLogStream (Group msg) (Stream msg)]))
               else
                 Some (Inr (UploadSequenceToken (LogStreams ! 0)),
                       h3 @ [Call_DescribeLogStreams (Group msg) (Stream msg)])))"
  apply (subst getSequenceToken.simps)
  apply (simp add: resolveGroup_def createStream_def split: prod.splits sum.splits option.splits)
  done

text \<open>The group phase sends only group requests.\<close>

lemma resolveGroup_calls:
  "resolveGroup svc adapter grp h = (e, h3) \<Longrightarrow> \<exists>gp. h3 = h @ gp \<and> (\<forall>c\<in>set gp. isGroupCall c)"
  by (auto simp: resolveGroup_def groupExists_def createGroup_def createGroupRetentionPolicy_def
      split: sum.splits option.splits if_splits prod.splits)

lemma isGroupCall_other: "isGroupCall c \<Longrightarrow> \<not> isDescribeLogStreams c \<and> \<not> isPutLogEvents c"
  by (cases c) auto


text \<open>
  Induction over the calls \<open>getSequenceToken\<close> makes to itself, for the runs that
  return: one case for each way the function ends, and one for the retry.
\<close>

lemma getSequenceToken_induct [consumes 1, case_names group_error list_error too_many create_error retry one_match]:
  assumes ret: "getSequenceToken svc adapter msg h = Some y"
    and group_error: "\<And>h err h3. resolveGroup svc adapter (Group msg) h = (Some err, h3) \<Longrightarrow> P h (Inl err, h3)"
    and list_error: "\<And>h h3 err. resolveGroup svc adapter (Group msg) h = (None, h3) \<Longrightarrow>
        DescribeLogStreams svc h3 (Group msg) (Stream msg) = Inl err \<Longrightarrow>
        P h (Inl (AwsError err), h3 @ [Call_DescribeLogStreams (Group msg) (Stream msg)])"
    and too_many: "\<And>h h3 LogStreams. resolveGroup svc adapter (Group msg) h = (None, h3) \<Longrightarrow>
        DescribeLogStreams svc h3 (Group msg) (Stream msg) = Inr LogStreams \<Longrightarrow>
        length LogStreams > 1 \<Longrightarrow>
        P h (Inl (TooManyStreams (length LogStreams) (Group msg) (Stream msg)),
             h3 @ [Call_DescribeLogStreams (Group msg) (Stream msg)])"
    and create_error: "\<And>h h3 err. resolveGroup svc adapter (Group msg) h = (None, h3) \<Longrightarrow>
        DescribeLogStreams svc h3 (Group msg) (Stream msg) = Inr [] \<Longrightarrow>
        CreateLogStream svc (h3 @ [Call_DescribeLogStreams (Group msg) (Stream msg)])
          (Group msg) (Stream msg) = Inl err \<Longrightarrow>
        P h (Inl (AwsError err), h3 @ [Call_DescribeLogStreams (Group msg) (Stream msg),
                                       Call_CreateLogStream (Group msg) (Stream msg)])"
    and retry: "\<And>h h3 y. resolveGroup svc adapter (Group msg) h = (None, h3) \<Longrightarrow>
        DescribeLogStreams svc h3 (Group msg) (Stream msg) = Inr [] \<Longrightarrow>
        CreateLogStream svc (h3 @ [Call_DescribeLogStreams (Group msg) (Stream msg)])
          (Group msg) (Stream msg) = Inr () \<Longrightarrow>
        P (h3 @ [Call_DescribeLogStreams (Group msg) (Stream msg),
                 Call_CreateLogStream (Group msg) (Stream msg)]) y \<Longrightarrow>
        P h y"
    and one_match: "\<And>h h3 ls. resolveGroup svc adapter (Group msg) h = (None, h3) \<Longrightarrow>
        DescribeLogStreams svc h3 (Group msg) (Stream msg) = Inr [ls] \<Longrightarrow>
        P h (Inr (UploadSequenceToken ls), h3 @ [Call_DescribeLogStreams (Group msg) (Stream msg)])"
  shows "P h y"
proof -
  have "svc' = svc \<longrightarrow> adapter' = adapter \<longrightarrow> msg' = msg \<longrightarrow> P h y"
    if "getSequenceToken svc' adapter' msg' h = Some y" for svc' adapter' msg'
    using that
  proof (induction rule: getSequenceToken.raw_induct [rotated 1, consumes 1, case_names step])
    case (step f svc' adapter' msg' h y)
    show ?case
    proof (intro impI)
      assume eqs: "svc' = svc" "adapter' = adapter" "msg' = msg"
      obtain e h3 where rg: "resolveGroup svc adapter (Group msg) h = (e, h3)"
        by (cases "resolveGroup svc adapter (Group msg) h") auto
      have body_eq: "(case groupExists svc (Group msg) h of
        (Inl err, h1) \<Rightarrow> Some (Inl err, h1)
      | (Inr found, h1) \<Rightarrow>
          (case (if \<not> found then
                   (case createGroup svc (Group msg) h1 of
                      (Some err, h2) \<Rightarrow> (Some err, h2)
                    | (None, h2) \<Rightarrow>
                        (case retentiondays adapter (Group msg) of
                           Some retentionDays \<Rightarrow>
                             createGroupRetentionPolicy svc (Group msg) retentionDays h2
                         | None \<Rightarrow> (None, h2)))
                 else (None, h1)) of
             (Some err, h3) \<Rightarrow> Some (Inl err, h3)
           | (None, h3) \<Rightarrow> K h3)) =
        (case resolveGroup svc adapter (Group msg) h of
           (Some err, h3) \<Rightarrow> Some (Inl err, h3)
         | (None, h3) \<Rightarrow> K h3)" for K :: "call list \<Rightarrow> ((error + string option) \<times> call list) option"
        by (simp add: resolveGroup_def split: prod.splits sum.splits option.splits)
      from step(2) rg have body:
        "(case e of
            Some err \<Rightarrow> Some (Inl err, h3)
          | None \<Rightarrow>
             (case DescribeLogStreams svc h3 (Group msg) (Stream msg) of
                Inl err \<Rightarrow>
                  Some (Inl (AwsError err), h3 @ [Call_DescribeLogStreams (Group msg) (Stream msg)])
              | Inr LogStreams \<Rightarrow>
                  if length LogStreams > 1 then
                    Some (Inl (TooManyStreams (length LogStreams) (Group msg) (Stream msg)),
                          h3 @ [Call_DescribeLogStreams (Group msg) (Stream msg)])
                  else if length LogStreams = 0 then
                    (case createStream svc (Group msg) (Stream msg)
                              (h3 @ [Call_DescribeLogStreams (Group msg) (Stream msg)]) of
                         (Some err, h4) \<Rightarrow> Some (Inl err, h4)
                       | (None, h4) \<Rightarrow> f svc adapter msg h4)
                  else
                    Some (Inr (UploadSequenceToken (LogStreams ! 0)),
                          h3 @ [Call_DescribeLogStreams (Group msg) (Stream msg)]))) = Some y"
        unfolding eqs body_eq by simp
      show "P h y"
      proof (cases e)
        case (Some err)
        with body rg group_error show ?thesis by auto
      next
        case None
        note eN = None
        show ?thesis
        proof (cases "DescribeLogStreams svc h3 (Group msg) (Stream msg)")
          case (Inl err)
          with body rg eN list_error show ?thesis by auto
        next
          case (Inr LogStreams)
          consider "length LogStreams > 1" | "LogStreams = []" | ls where "LogStreams = [ls]"
            by (cases LogStreams; cases "tl LogStreams") auto
          then show ?thesis
          proof cases
            case 1
            with body rg eN Inr too_many show ?thesis by auto
          next
            case 2
            show ?thesis
            proof (cases "CreateLogStream svc
                            (h3 @ [Call_DescribeLogStreams (Group msg) (Stream msg)])
                            (Group msg) (Stream msg)")
              case (Inl err)
              with body rg eN Inr 2 create_error show ?thesis by (auto simp: createStream_def)
            next
              case inr: (Inr x)
              with body eN Inr 2 have "f svc adapter msg
                           (h3 @ [Call_DescribeLogStreams (Group msg) (Stream msg),
                                  Call_CreateLogStream (Group msg) (Stream msg)]) = Some y"
                by (simp add: createStream_def)
              from step(1) [OF this] eqs have "P (h3 @ [Call_DescribeLogStreams (Group msg) (Stream msg),
                                  Call_CreateLogStream (Group msg) (Stream msg)]) y"
                by simp
              with rg eN Inr 2 inr retry show ?thesis by auto
            qed
          next
            case 3
            with body rg eN Inr one_match show ?thesis by auto
          qed
        qed
      qed
    qed
  qed
  with ret show ?thesis by blast
qed

text \<open>Where a stream listing can stand in the requests of one resolution.\<close>

lemma split_at_call:
  "gp @ x # rest = before @ d # after \<Longrightarrow> \<forall>c\<in>set gp. \<not> D c \<Longrightarrow> D d \<Longrightarrow>
     (before = gp \<and> d = x \<and> after = rest) \<or>
     (\<exists>before'. before = gp @ x # before' \<and> rest = before' @ d # after)"
proof (induction gp arbitrary: before)
  case Nil
  then show ?case by (cases before) auto
next
  case (Cons a gp)
  then show ?case by (cases before) auto
qed

lemma snoc_split:
  "cs @ [p] = before @ d # after \<Longrightarrow> p \<noteq> d \<Longrightarrow>
     \<exists>after'. after = after' @ [p] \<and> cs = before @ d # after'"
  by (cases after rule: rev_cases) auto

lemma trace_single:
  assumes "\<forall>c\<in>set gp. isGroupCall c" and "\<forall>c\<in>set rest. \<not> isDescribeLogStreams c"
    and "gp @ Call_DescribeLogStreams g s # rest = before @ Call_DescribeLogStreams g' s' # after"
  shows "before = gp \<and> g' = g \<and> s' = s \<and> after = rest"
proof -
  have gp: "\<forall>c\<in>set gp. \<not> isDescribeLogStreams c"
    using assms(1) isGroupCall_other by blast
  from split_at_call [OF assms(3) gp] consider
    "before = gp \<and> Call_DescribeLogStreams g' s' = Call_DescribeLogStreams g s \<and> after = rest"
    | before' where "rest = before' @ Call_DescribeLogStreams g' s' # after"
    by auto
  then show ?thesis
  proof cases
    case 1
    then show ?thesis by simp
  next
    case 2
    with assms(2) show ?thesis by auto
  qed
qed

lemma trace_retry:
  assumes "\<forall>c\<in>set gp. isGroupCall c"
    and "gp @ Call_DescribeLogStreams g s # Call_CreateLogStream g s # cs
           = before @ Call_DescribeLogStreams g' s' # after"
  shows "(before = gp \<and> g' = g \<and> s' = s) \<or>
         (\<exists>before'. before = gp @ Call_DescribeLogStreams g s # Call_CreateLogStream g s # before'
            \<and> cs = before' @ Call_DescribeLogStreams g' s' # after)"
proof -
  have gp: "\<forall>c\<in>set gp. \<not> isDescribeLogStreams c"
    using assms(1) isGroupCall_other by blast
  from split_at_call [OF assms(2) gp] consider
    "before = gp \<and> Call_DescribeLogStreams g' s' = Call_DescribeLogStreams g s"
    | b1 where "before = gp @ Call_DescribeLogStreams g s # b1"
        "Call_CreateLogStream g s # cs = b1 @ Call_DescribeLogStreams g' s' # after"
    by auto
  then show ?thesis
  proof cases
    case 1
    then show ?thesis by simp
  next
    case 2
    from 2(2) obtain b2 where "b1 = Call_CreateLogStream g s # b2"
      "cs = b2 @ Call_DescribeLogStreams g' s' # after"
      by (cases b1) auto
    with 2(1) show ?thesis by simp
  qed
qed

text \<open>
  What a returning resolution has sent: no append, and a stream listing that was
  answered with more than one stream only as its last request, the result then being
  the error for too many streams.
\<close>

lemma getSequenceToken_trace:
  assumes "getSequenceToken svc adapter msg h = Some y"
  shows "\<exists>cs. snd y = h @ cs \<and> (\<forall>c\<in>set cs. \<not> isPutLogEvents c) \<and>
           (\<forall>before g s after L.
              cs = before @ Call_DescribeLogStreams g s # after \<longrightarrow>
              DescribeLogStreams svc (h @ before) g s = Inr L \<longrightarrow> 1 < length L \<longrightarrow>
              after = [] \<and> fst y = Inl (TooManyStreams (length L) g s))"
  using assms
proof (induction rule: getSequenceToken_induct)
  case (group_error h err h3)
  from resolveGroup_calls [OF group_error(1)] obtain gp where
    gp: "h3 = h @ gp" "\<forall>c\<in>set gp. isGroupCall c" by blast
  have "\<forall>c\<in>set gp. \<not> isDescribeLogStreams c" "\<forall>c\<in>set gp. \<not> isPutLogEvents c"
    using gp(2) isGroupCall_other by blast+
  then show ?case using gp(1) by (intro exI [of _ gp]) auto
next
  case (list_error h h3 err)
  from resolveGroup_calls [OF list_error(1)] obtain gp where
    gp: "h3 = h @ gp" "\<forall>c\<in>set gp. isGroupCall c" by blast
  have np: "\<forall>c\<in>set gp. \<not> isPutLogEvents c"
    using gp(2) isGroupCall_other by blast
  show ?case
  proof (intro exI [of _ "gp @ [Call_DescribeLogStreams (Group msg) (Stream msg)]"] conjI allI impI)
    fix before g s after L
    assume dec: "gp @ [Call_DescribeLogStreams (Group msg) (Stream msg)]
                   = before @ Call_DescribeLogStreams g s # after"
      and resp: "DescribeLogStreams svc (h @ before) g s = Inr L"
    from trace_single [OF gp(2) _ dec [simplified]]
    have "before = gp \<and> g = Group msg \<and> s = Stream msg \<and> after = []" by simp
    with resp list_error(2) gp(1) show "after = []"
      and "fst (Inl (AwsError err), h3 @ [Call_DescribeLogStreams (Group msg) (Stream msg)])
             = Inl (TooManyStreams (length L) g s)"
      by auto
  qed (use gp(1) np in auto)
next
  case (too_many h h3 LogStreams)
  from resolveGroup_calls [OF too_many(1)] obtain gp where
    gp: "h3 = h @ gp" "\<forall>c\<in>set gp. isGroupCall c" by blast
  have np: "\<forall>c\<in>set gp. \<not> isPutLogEvents c"
    using gp(2) isGroupCall_other by blast
  show ?case
  proof (intro exI [of _ "gp @ [Call_DescribeLogStreams (Group msg) (Stream msg)]"] conjI allI impI)
    fix before g s after L
    assume dec: "gp @ [Call_DescribeLogStreams (Group msg) (Stream msg)]
                   = before @ Call_DescribeLogStreams g s # after"
      and resp: "DescribeLogStreams svc (h @ before) g s = Inr L"
    from trace_single [OF gp(2) _ dec [simplified]]
    have "before = gp \<and> g = Group msg \<and> s = Stream msg \<and> after = []" by simp
    with resp too_many(2) gp(1) show "after = []"
      and "fst (Inl (TooManyStreams (length LogStreams) (Group msg) (Stream msg)),
                h3 @ [Call_DescribeLogStreams (Group msg) (Stream msg)])
             = Inl (TooManyStreams (length L) g s)"
      by auto
  qed (use gp(1) np in auto)
next
  case (create_error h h3 err)
  from resolveGroup_calls [OF create_error(1)] obtain gp where
    gp: "h3 = h @ gp" "\<forall>c\<in>set gp. isGroupCall c" by blast
  have np: "\<forall>c\<in>set gp. \<not> isPutLogEvents c"
    using gp(2) isGroupCall_other by blast
  show ?case
  proof (intro exI [of _ "gp @ [Call_DescribeLogStreams (Group msg) (Stream msg),
                               Call_CreateLogStream (Group msg) (Stream msg)]"] conjI allI impI)
    fix before g s after L
    assume dec: "gp @ [Call_DescribeLogStreams (Group msg) (Stream msg),
                       Call_CreateLogStream (Group msg) (Stream msg)]
                   = before @ Call_DescribeLogStreams g s # after"
      and resp: "DescribeLogStreams svc (h @ before) g s = Inr L" and len: "1 < length L"
    from trace_single [OF gp(2) _ dec [simplified]]
    have "before = gp \<and> g = Group msg \<and> s = Stream msg" by simp
    with resp create_error(2) gp(1) len show "after = []"
      and "fst (Inl (AwsError err), h3 @ [Call_DescribeLogStreams (Group msg) (Stream msg),
                       Call_CreateLogStream (Group msg) (Stream msg)])
             = Inl (TooManyStreams (length L) g s)"
      by auto
  qed (use gp(1) np in auto)
next
  case (retry h h3 y)
  from resolveGroup_calls [OF retry(1)] obtain gp where
    gp: "h3 = h @ gp" "\<forall>c\<in>set gp. isGroupCall c" by blast
  have np: "\<forall>c\<in>set gp. \<not> isPutLogEvents c"
    using gp(2) isGroupCall_other by blast
  from retry(4) obtain cs where
    cs: "snd y = (h3 @ [Call_DescribeLogStreams (Group msg) (Stream msg),
                        Call_CreateLogStream (Group msg) (Stream msg)]) @ cs"
      "\<forall>c\<in>set cs. \<not> isPutLogEvents c"
      "\<And>before g s after L.
          cs = before @ Call_DescribeLogStreams g s # after \<Longrightarrow>
          DescribeLogStreams svc
            ((h3 @ [Call_DescribeLogStreams (Group msg) (Stream msg),
                    Call_CreateLogStream (Group msg) (Stream msg)]) @ before) g s = Inr L \<Longrightarrow>
          1 < length L \<Longrightarrow> after = [] \<and> fst y = Inl (TooManyStreams (length L) g s)"
    by blast
  show ?case
  proof (intro exI [of _ "gp @ Call_DescribeLogStreams (Group msg) (Stream msg) #
                               Call_CreateLogStream (Group msg) (Stream msg) # cs"] conjI allI impI)
    fix before g s after L
    assume dec: "gp @ Call_DescribeLogStreams (Group msg) (Stream msg) #
                       Call_CreateLogStream (Group msg) (Stream msg) # cs
                   = before @ Call_DescribeLogStreams g s # after"
      and resp: "DescribeLogStreams svc (h @ before) g s = Inr L" and len: "1 < length L"
    from trace_retry [OF gp(2) dec] consider
      "before = gp \<and> g = Group msg \<and> s = Stream msg"
      | before' where "before = gp @ Call_DescribeLogStreams (Group msg) (Stream msg) #
           Call_CreateLogStream (Group msg) (Stream msg) # before'"
          "cs = before' @ Call_DescribeLogStreams g s # after"
      by blast
    then have "after = [] \<and> fst y = Inl (TooManyStreams (length L) g s)"
    proof cases
      case 1
      with resp retry(2) gp(1) len show ?thesis by auto
    next
      case 2
      from resp 2(1) gp(1) have "DescribeLogStreams svc
            ((h3 @ [Call_DescribeLogStreams (Group msg) (Stream msg),
                    Call_CreateLogStream (Group msg) (Stream msg)]) @ before') g s = Inr L"
        by simp
      from cs(3) [OF 2(2) this len] show ?thesis .
    qed
    then show "after = []" and "fst y = Inl (TooManyStreams (length L) g s)" by simp_all
  qed (use gp(1) np cs(1,2) in auto)
next
  case (one_match h h3 ls)
  from resolveGroup_calls [OF one_match(1)] obtain gp where
    gp: "h3 = h @ gp" "\<forall>c\<in>set gp. isGroupCall c" by blast
  have np: "\<forall>c\<in>set gp. \<not> isPutLogEvents c"
    using gp(2) isGroupCall_other by blast
  show ?case
  proof (intro exI [of _ "gp @ [Call_DescribeLogStreams (Group msg) (Stream msg)]"] conjI allI impI)
    fix before g s after L
    assume dec: "gp @ [Call_DescribeLogStreams (Group msg) (Stream msg)]
                   = before @ Call_DescribeLogStreams g s # after"
      and resp: "DescribeLogStreams svc (h @ before) g s = Inr L" and len: "1 < length L"
    from trace_single [OF gp(2) _ dec [simplified]]
    have "before = gp \<and> g = Group msg \<and> s = Stream msg \<and> after = []" by simp
    with resp one_match(2) gp(1) len show "after = []"
      and "fst (Inr (UploadSequenceToken ls), h3 @ [Call_DescribeLogStreams (Group msg) (Stream msg)])
             = Inl (TooManyStreams (length L) g s)"
      by auto
  qed (use gp(1) np in auto)
qed

text \<open>The token phase of a batch: the requests sent and the change to the cache.\<close>

lemma Start_token_result:
  assumes "Start_token svc adapter u msg = Some (r, u1)"
  shows "(\<exists>cs. history u1 = history u @ cs \<and> (\<forall>c\<in>set cs. \<not> isPutLogEvents c)) \<and>
         (tokens u1 = tokens u \<or>
          (tokens u (Container msg) = None \<and>
           (\<exists>t. r = Inr (Some t) \<and> tokens u1 = (tokens u)(Container msg \<mapsto> t))))"
proof (cases "tokens u (Container msg)")
  case (Some cachedToken)
  with assms show ?thesis by (auto simp: Start_token_def)
next
  case None
  with assms obtain r' h where g: "getSequenceToken svc adapter msg (history u) = Some (r', h)"
    by (auto simp: Start_token_def split: option.splits)
  from getSequenceToken_trace [OF g] obtain cs where
    cs: "h = history u @ cs" "\<forall>c\<in>set cs. \<not> isPutLogEvents c" by auto
  from assms None g have "history u1 = h"
    by (auto simp: Start_token_def split: sum.splits option.splits)
  moreover from assms None g have "tokens u1 = tokens u \<or>
          (\<exists>t. r = Inr (Some t) \<and> tokens u1 = (tokens u)(Container msg \<mapsto> t))"
    by (auto simp: Start_token_def split: sum.splits option.splits)
  ultimately show ?thesis using cs None by auto
qed

text \<open>
  A batch whose first message comes from a container with a cached token is sent with
  that token, and the append is the only request.
\<close>

lemma cached_token_round_trip:
  assumes "Msgs batch \<noteq> []" and "tokens u (Container (Msgs batch ! 0)) = Some C"
  shows "\<exists>u'. Start_step svc adapter u batch = Some u' \<and>
           history u' = history u @ [Call_PutLogEvents (paramsOf batch (Some C))]"
  using assms Start_post_history [of svc u batch "Some C"]
  by (simp add: Start_step_def Start_token_def)



text \<open>
  On the service whose listing never shows a stream, \<open>getSequenceToken\<close> does not
  return: every listing is followed by a creation and a new call.
\<close>

lemma getSequenceToken_blind_never_returns:
  "getSequenceToken aws_blind adapter msg h = None"
proof (rule ccontr)
  assume "getSequenceToken aws_blind adapter msg h \<noteq> None"
  then obtain y where "getSequenceToken aws_blind adapter msg h = Some y" by auto
  then show False
    by (induction rule: getSequenceToken_induct)
       (auto simp: resolveGroup_def groupExists_def aws_blind_def split: if_splits)
qed

text \<open>
  In the requests of a batch whose step returns, a stream listing answered with more
  than one stream is the last request: no append precedes it, the token cache is
  unchanged, and the token phase ended with the error for too many streams.
\<close>

lemma ambiguous_listing_is_last_request:
  assumes step: "Start_step svc adapter u batch = Some u'"
    and dec: "history u' = history u @ before @ Call_DescribeLogStreams g s # after"
    and resp: "DescribeLogStreams svc (history u @ before) g s = Inr LogStreams"
    and len: "1 < length LogStreams"
  shows "after = [] \<and> (\<forall>c\<in>set before. \<not> isPutLogEvents c) \<and> tokens u' = tokens u \<and>
         Start_token svc adapter u (Msgs batch ! 0) =
           Some (Inl (TooManyStreams (length LogStreams) g s), u')"
proof -
  let ?msg = "Msgs batch ! 0"
  have ne: "Msgs batch \<noteq> []"
  proof
    assume "Msgs batch = []"
    with step have "u' = u" by (simp add: Start_step_def)
    with dec show False by simp
  qed
  show ?thesis
  proof (cases "tokens u (Container ?msg)")
    case (Some cachedToken)
    then have "Start_token svc adapter u ?msg = Some (Inr (Some cachedToken), u)"
      by (simp add: Start_token_def)
    with step ne have "u' = Start_post svc u batch ?msg (Some cachedToken)"
      by (simp add: Start_step_def)
    then have "history u' = history u @ [Call_PutLogEvents (paramsOf batch (Some cachedToken))]"
      by (simp add: Start_post_history)
    with dec have "[Call_PutLogEvents (paramsOf batch (Some cachedToken))]
        = before @ Call_DescribeLogStreams g s # after" by simp
    then show ?thesis by (cases before) auto
  next
    case None
    with step ne obtain r h where gst: "getSequenceToken svc adapter ?msg (history u) = Some (r, h)"
      by (auto simp: Start_step_def Start_token_def split: option.splits)
    from getSequenceToken_trace [OF gst] obtain cs where
      cs: "h = history u @ cs" "\<forall>c\<in>set cs. \<not> isPutLogEvents c"
      and amb: "\<And>before g s after L.
              cs = before @ Call_DescribeLogStreams g s # after \<Longrightarrow>
              DescribeLogStreams svc (history u @ before) g s = Inr L \<Longrightarrow> 1 < length L \<Longrightarrow>
              after = [] \<and> r = Inl (TooManyStreams (length L) g s)"
      by auto
    show ?thesis
    proof (cases r)
      case (Inl e)
      with None gst have tok: "Start_token svc adapter u ?msg = Some (Inl e, u\<lparr>history := h\<rparr>)"
        by (simp add: Start_token_def)
      with step ne have u': "u' = u\<lparr>history := h\<rparr>" by (simp add: Start_step_def)
      with dec cs(1) have "cs = before @ Call_DescribeLogStreams g s # after" by simp
      from amb [OF this resp len] this cs(2) tok u' Inl show ?thesis by auto
    next
      case (Inr token)
      with None gst obtain u1 where
        tok: "Start_token svc adapter u ?msg = Some (Inr token, u1)" and u1: "history u1 = h"
        by (cases token) (auto simp: Start_token_def)
      with step ne have "u' = Start_post svc u1 batch ?msg token" by (simp add: Start_step_def)
      then have "history u' = h @ [Call_PutLogEvents (paramsOf batch token)]"
        using u1 by (simp add: Start_post_history)
      with dec cs(1) have "cs @ [Call_PutLogEvents (paramsOf batch token)]
          = before @ Call_DescribeLogStreams g s # after" by simp
      from snoc_split [OF this] obtain after' where
        "cs = before @ Call_DescribeLogStreams g s # after'" by auto
      from amb [OF this resp len] Inr show ?thesis by simp
    qed
  qed
qed

section \<open>Runs on concrete inputs\<close>

text \<open>The definitions a run on concrete inputs unfolds.\<close>

lemmas eval_defs = Start_step_def Start_token_def Start_post_def getSequenceToken.simps groupExists_def
      createGroup_def createGroupRetentionPolicy_def createStream_def 
      adapter0_def uploader0_def batch_c1_def batch_c2_def batch_c1_again_def token_of_def Let_def

text \<open>
  The batch of three messages of the container \<open>''c1''\<close>, delivered by a fresh uploader
  to the well-behaved service, on which neither the group nor the stream exists.
\<close>

lemma run_fresh:
  "Start_step aws adapter0 uploader0 batch_c1 =
     Some \<lparr>tokens = [''c1'' \<mapsto> ''token-i''],
           history =
             [Call_DescribeLogGroups ''app'', Call_CreateLogGroup ''app'',
              Call_PutRetentionPolicy ''app'' 7,
              Call_DescribeLogStreams ''app'' ''web-1'', Call_CreateLogStream ''app'' ''web-1'',
              Call_DescribeLogGroups ''app'', Call_DescribeLogStreams ''app'' ''web-1'',
              Call_PutLogEvents
                \<lparr>LogEvents = [\<lparr>ev_Message = ''one'', ev_Timestamp = 1500000000123\<rparr>,
                              \<lparr>ev_Message = ''two'', ev_Timestamp = 1500000000123\<rparr>,
                              \<lparr>ev_Message = ''three'', ev_Timestamp = 1500000001000\<rparr>],
                 LogGroupName = ''app'', LogStreamName = ''web-1'',
                 SequenceToken = None\<rparr>]\<rparr>"
  by (simp add: eval_defs aws_def)

text \<open>Then the batch of the container \<open>''c2''\<close> for the same destination.\<close>

lemma run_two_containers:
  "Start aws adapter0 uploader0 [batch_c1, batch_c2] =
     Some \<lparr>tokens = [''c1'' \<mapsto> ''token-i'', ''c2'' \<mapsto> ''token-ii''],
           history =
             [Call_DescribeLogGroups ''app'', Call_CreateLogGroup ''app'',
              Call_PutRetentionPolicy ''app'' 7,
              Call_DescribeLogStreams ''app'' ''web-1'', Call_CreateLogStream ''app'' ''web-1'',
              Call_DescribeLogGroups ''app'', Call_DescribeLogStreams ''app'' ''web-1'',
              Call_PutLogEvents
                \<lparr>LogEvents = [\<lparr>ev_Message = ''one'', ev_Timestamp = 1500000000123\<rparr>,
                              \<lparr>ev_Message = ''two'', ev_Timestamp = 1500000000123\<rparr>,
                              \<lparr>ev_Message = ''three'', ev_Timestamp = 1500000001000\<rparr>],
                 LogGroupName = ''app'', LogStreamName = ''web-1'',
                 SequenceToken = None\<rparr>,
              Call_DescribeLogGroups ''app'', Call_DescribeLogStreams ''app'' ''web-1'',
              Call_PutLogEvents
                \<lparr>LogEvents = [\<lparr>ev_Message = ''four'', ev_Timestamp = 1500000002000\<rparr>],
                 LogGroupName = ''app'', LogStreamName = ''web-1'',
                 SequenceToken = Some ''token-i''\<rparr>]\<rparr>"
  by (simp add: run_fresh) (simp add: eval_defs aws_def)

text \<open>Then one more batch of the container \<open>''c1''\<close>.\<close>

lemma run_three_batches:
  "Start aws adapter0 uploader0 [batch_c1, batch_c2, batch_c1_again] =
     Some \<lparr>tokens = [''c1'' \<mapsto> ''token-i'', ''c2'' \<mapsto> ''token-ii''],
           history =
             [Call_DescribeLogGroups ''app'', Call_CreateLogGroup ''app'',
              Call_PutRetentionPolicy ''app'' 7,
              Call_DescribeLogStreams ''app'' ''web-1'', Call_CreateLogStream ''app'' ''web-1'',
              Call_DescribeLogGroups ''app'', Call_DescribeLogStreams ''app'' ''web-1'',
              Call_PutLogEvents
                \<lparr>LogEvents = [\<lparr>ev_Message = ''one'', ev_Timestamp = 1500000000123\<rparr>,
                              \<lparr>ev_Message = ''two'', ev_Timestamp = 1500000000123\<rparr>,
                              \<lparr>ev_Message = ''three'', ev_Timestamp = 1500000001000\<rparr>],
                 LogGroupName = ''app'', LogStreamName = ''web-1'',
                 SequenceToken = None\<rparr>,
              Call_DescribeLogGroups ''app'', Call_DescribeLogStreams ''app'' ''web-1'',
              Call_PutLogEvents
                \<lparr>LogEvents = [\<lparr>ev_Message = ''four'', ev_Timestamp = 1500000002000\<rparr>],
                 LogGroupName = ''app'', LogStreamName = ''web-1'',
                 SequenceToken = Some ''token-i''\<rparr>,
              Call_PutLogEvents
                \<lparr>LogEvents = [\<lparr>ev_Message = ''five'', ev_Timestamp = 1500000003000\<rparr>],
                 LogGroupName = ''app'', LogStreamName = ''web-1'',
                 SequenceToken = Some ''token-i''\<rparr>]\<rparr>"
  by (simp add: run_fresh) (simp add: eval_defs aws_def)

text \<open>The token phase of the first batch on the service that fails every append.\<close>

lemma run_append_down:
  "Start_token aws_append_down adapter0 uploader0 (Msgs batch_c1 ! 0) =
     Some (Inr (Some ''T0''),
           \<lparr>tokens = [''c1'' \<mapsto> ''T0''],
            history = [Call_DescribeLogGroups ''app'', Call_DescribeLogStreams ''app'' ''web-1'']\<rparr>)"
  by (simp add: eval_defs aws_append_down_def)

section \<open>The claims\<close>

subsection \<open>C1: the key of the token cache\<close>

text \<open>
  C1. The cache of sequence tokens is to be keyed by the destination, the pair of group
  and stream, so that the cached token of a destination is the one its most recent
  successful append returned, also when several containers write to one destination.

  The code keys \<^verbatim>\<open>u.tokens\<close> by \<^verbatim>\<open>msg.Container\<close> (lines 68, 79 and 112), while its
  own comment on \<^verbatim>\<open>Start\<close> speaks of the sequence token of each log stream. The run
  below evaluates the code where two containers share the destination
  \<open>(''app'', ''web-1'')\<close>. After the batches of \<open>''c1''\<close> and of \<open>''c2''\<close> the most recent
  successful append returned \<open>''token-ii''\<close>, and the cache still holds \<open>''token-i''\<close> for
  \<open>''c1''\<close>. The next batch of \<open>''c1''\<close> is sent with \<open>''token-i''\<close>, without any
  listing, and the service refuses it.
\<close>

theorem stale_token_for_shared_destination:
  "map_option (\<lambda>u. (tokens u ''c1'', tokens u ''c2''))
     (Start aws adapter0 uploader0 [batch_c1, batch_c2]) =
     Some (Some ''token-i'', Some ''token-ii'') \<and>
   map_option (\<lambda>u. drop 11 (history u))
     (Start aws adapter0 uploader0 [batch_c1, batch_c2, batch_c1_again]) =
     Some [Call_PutLogEvents
             \<lparr>LogEvents = [\<lparr>ev_Message = ''five'', ev_Timestamp = 1500000003000\<rparr>],
              LogGroupName = ''app'', LogStreamName = ''web-1'',
              SequenceToken = Some ''token-i''\<rparr>] \<and>
   map_option (\<lambda>u. PutLogEvents aws (history u)
              \<lparr>LogEvents = [\<lparr>ev_Message = ''five'', ev_Timestamp = 1500000003000\<rparr>],
               LogGroupName = ''app'', LogStreamName = ''web-1'',
               SequenceToken = Some ''token-i''\<rparr>)
     (Start aws adapter0 uploader0 [batch_c1, batch_c2]) =
     Some (Inl ''InvalidSequenceTokenException'')"
  unfolding run_two_containers run_three_batches by (simp add: aws_def token_of_def)

subsection \<open>C2: a failed retention policy\<close>

text \<open>
  C2 says that the batch is still delivered when the group was created and its
  retention policy could not be applied. In the code \<^verbatim>\<open>getSequenceToken\<close> returns the
  error of \<^verbatim>\<open>createGroupRetentionPolicy\<close>, and \<^verbatim>\<open>Start\<close> goes on to the next batch.

  C2, as amended. If the group is missing, its creation succeeds, a retention is
  configured for it and applying the retention fails, then the batch is dropped: the
  three requests (group listing, group creation, retention policy) are the only ones
  sent, so no stream is listed or created and nothing is appended, and the token cache is
  unchanged.
\<close>

theorem retention_failure_drops_batch:
  assumes "Msgs batch \<noteq> []"
    and "tokens u (Container (Msgs batch ! 0)) = None"
    and "DescribeLogGroups svc (history u) (Group (Msgs batch ! 0)) = Inr LogGroups"
    and "Group (Msgs batch ! 0) \<notin> set LogGroups"
    and "CreateLogGroup svc (history u @ [Call_DescribeLogGroups (Group (Msgs batch ! 0))])
           (Group (Msgs batch ! 0)) = Inr ()"
    and "retentiondays adapter (Group (Msgs batch ! 0)) = Some days"
    and "PutRetentionPolicy svc
           (history u @ [Call_DescribeLogGroups (Group (Msgs batch ! 0)),
                         Call_CreateLogGroup (Group (Msgs batch ! 0))])
           (Group (Msgs batch ! 0)) days = Inl err"
  shows "Start_step svc adapter u batch =
           Some (u\<lparr>history := history u @
                     [Call_DescribeLogGroups (Group (Msgs batch ! 0)),
                      Call_CreateLogGroup (Group (Msgs batch ! 0)),
                      Call_PutRetentionPolicy (Group (Msgs batch ! 0)) days]\<rparr>)"
proof -
  have "resolveGroup svc adapter (Group (Msgs batch ! 0)) (history u) =
          (Some (AwsError err), history u @
                     [Call_DescribeLogGroups (Group (Msgs batch ! 0)),
                      Call_CreateLogGroup (Group (Msgs batch ! 0)),
                      Call_PutRetentionPolicy (Group (Msgs batch ! 0)) days])"
    using assms(3-7)
    by (simp add: resolveGroup_def groupExists_def matchGroup_iff createGroup_def
        createGroupRetentionPolicy_def)
  then have "getSequenceToken svc adapter (Msgs batch ! 0) (history u) =
          Some (Inl (AwsError err), history u @
                     [Call_DescribeLogGroups (Group (Msgs batch ! 0)),
                      Call_CreateLogGroup (Group (Msgs batch ! 0)),
                      Call_PutRetentionPolicy (Group (Msgs batch ! 0)) days])"
    by (simp add: getSequenceToken_unfold)
  then show ?thesis
    using assms(1,2) by (simp add: Start_step_def Start_token_def)
qed

theorem retention_failure_drops_batch_witness:
  "Start_step aws_retention_denied adapter0 uploader0 batch_c1 =
     Some (uploader0\<lparr>history :=
             [Call_DescribeLogGroups ''app'', Call_CreateLogGroup ''app'',
              Call_PutRetentionPolicy ''app'' 7]\<rparr>)"
  using retention_failure_drops_batch [of batch_c1 uploader0 aws_retention_denied "[]" 
       adapter0 7 "''AccessDeniedException''"]
  by (simp add: aws_retention_denied_def aws_def adapter0_def uploader0_def batch_c1_def)

text \<open>
  The claim as stated fails on the service that refuses retention policies: the group
  is created, the policy is refused, and no append request follows.
\<close>

theorem retention_failure_counterexample:
  "Start_step aws_retention_denied adapter0 uploader0 batch_c1 =
     Some \<lparr>tokens = Map.empty,
           history = [Call_DescribeLogGroups ''app'', Call_CreateLogGroup ''app'',
                      Call_PutRetentionPolicy ''app'' 7]\<rparr>"
  by (simp add: Start_step_def Start_token_def getSequenceToken.simps groupExists_def
      createGroup_def createGroupRetentionPolicy_def aws_retention_denied_def aws_def
      adapter0_def uploader0_def batch_c1_def)

subsection \<open>C3: the retry after a stream creation\<close>

text \<open>
  C3 says that one creation and one more listing are all that happens after an empty
  stream listing, and that a second empty listing is an error. In the code
  \<^verbatim>\<open>getSequenceToken\<close> calls itself after the creation, so the whole resolution starts
  again, group lookup included, and an empty listing is treated the same way every time.

  C3, as amended. When the stream listing returns no stream, exactly one stream
  creation is requested. If it fails, its error is the result. If it succeeds, the
  result is that of a new resolution from the start (group lookup, then stream
  listing) on the history so extended: a further empty listing leads to a further
  creation and a further resolution and not to an error, and the code puts no bound on
  the number of rounds (\<open>getSequenceToken_blind_never_returns\<close> is a run that never
  ends).
\<close>

theorem zero_matches_restart_resolution:
  assumes "resolveGroup svc adapter (Group msg) h = (None, h3)"
    and "DescribeLogStreams svc h3 (Group msg) (Stream msg) = Inr []"
  shows "getSequenceToken svc adapter msg h =
     (case CreateLogStream svc (h3 @ [Call_DescribeLogStreams (Group msg) (Stream msg)])
             (Group msg) (Stream msg) of
        Inl err \<Rightarrow>
          Some (Inl (AwsError err),
                h3 @ [Call_DescribeLogStreams (Group msg) (Stream msg),
                      Call_CreateLogStream (Group msg) (Stream msg)])
      | Inr _ \<Rightarrow>
          getSequenceToken svc adapter msg
            (h3 @ [Call_DescribeLogStreams (Group msg) (Stream msg),
                   Call_CreateLogStream (Group msg) (Stream msg)]))"
  using assms by (subst getSequenceToken_unfold) simp

theorem zero_matches_restart_resolution_witness:
  "getSequenceToken aws_lagging adapter0 (Msgs batch_c1 ! 0) [] =
     getSequenceToken aws_lagging adapter0 (Msgs batch_c1 ! 0)
       [Call_DescribeLogGroups ''app'', Call_CreateLogGroup ''app'',
        Call_PutRetentionPolicy ''app'' 7, Call_DescribeLogStreams ''app'' ''web-1'',
        Call_CreateLogStream ''app'' ''web-1'']"
proof -
  have rg: "resolveGroup aws_lagging adapter0 (Group (Msgs batch_c1 ! 0)) [] =
      (None, [Call_DescribeLogGroups ''app'', Call_CreateLogGroup ''app'',
              Call_PutRetentionPolicy ''app'' 7])"
    by (simp add: resolveGroup_def eval_defs aws_lagging_def aws_def)
  have ls: "DescribeLogStreams aws_lagging
       [Call_DescribeLogGroups ''app'', Call_CreateLogGroup ''app'',
        Call_PutRetentionPolicy ''app'' 7] (Group (Msgs batch_c1 ! 0)) (Stream (Msgs batch_c1 ! 0))
       = Inr []"
    by (simp add: aws_lagging_def aws_def batch_c1_def)
  from zero_matches_restart_resolution [OF rg ls] show ?thesis
    by (simp add: aws_lagging_def aws_def batch_c1_def)
qed

text \<open>
  The claim as stated fails on the service whose listing lags: the second listing is
  empty as well, a second stream creation and a third listing follow, and the result is
  a token and not an error.
\<close>

theorem second_zero_match_counterexample:
  "getSequenceToken aws_lagging adapter0 (Msgs batch_c1 ! 0) [] =
     Some (Inr None,
       [Call_DescribeLogGroups ''app'', Call_CreateLogGroup ''app'',
        Call_PutRetentionPolicy ''app'' 7,
        Call_DescribeLogStreams ''app'' ''web-1'', Call_CreateLogStream ''app'' ''web-1'',
        Call_DescribeLogGroups ''app'',
        Call_DescribeLogStreams ''app'' ''web-1'', Call_CreateLogStream ''app'' ''web-1'',
        Call_DescribeLogGroups ''app'',
        Call_DescribeLogStreams ''app'' ''web-1''])"
  by (simp add: eval_defs aws_lagging_def aws_def)

subsection \<open>C4: the requests for a fresh destination\<close>

text \<open>
  C4 gives the requests for a batch whose group does not exist yet as: group listing,
  group creation, retention policy if configured, stream listing, stream creation,
  stream listing, append. In the code the retry after the stream creation is a new call
  of \<^verbatim>\<open>getSequenceToken\<close>, which lists the groups again before it lists the streams.

  C4, as amended. For a non-empty batch whose first message comes from a container
  with no cached token, when the group is missing and every request succeeds, the
  requests are, in this order: one group listing, one group creation, one retention
  request exactly when a retention is configured for the group, one stream listing
  (empty), one stream creation, a second group listing (which now holds the group), a
  second stream listing (one stream, with no sequence token), and one append that
  carries the events of the batch in order and no sequence token. The next sequence
  token of the response, when there is one, is then cached at the container of the
  batch's first message.
\<close>

theorem fresh_destination_call_sequence:
  fixes svc :: CloudWatchLogs and adapter :: CloudwatchAdapter and u :: CloudwatchUploader
    and batch :: CloudwatchBatch
  defines "g \<equiv> Group (Msgs batch ! 0)" and "s \<equiv> Stream (Msgs batch ! 0)"
  defines "retention \<equiv> (case retentiondays adapter g of
                            None \<Rightarrow> [] | Some days \<Rightarrow> [Call_PutRetentionPolicy g days])"
  defines "h3 \<equiv> history u @ [Call_DescribeLogGroups g, Call_CreateLogGroup g] @ retention"
  assumes nonempty: "Msgs batch \<noteq> []"
    and uncached: "tokens u (Container (Msgs batch ! 0)) = None"
    and no_group: "DescribeLogGroups svc (history u) g = Inr LogGroups1" "g \<notin> set LogGroups1"
    and group_created: "CreateLogGroup svc (history u @ [Call_DescribeLogGroups g]) g = Inr ()"
    and retention_set: "\<forall>days. retentiondays adapter g = Some days \<longrightarrow>
        PutRetentionPolicy svc (history u @ [Call_DescribeLogGroups g, Call_CreateLogGroup g])
          g days = Inr ()"
    and no_stream: "DescribeLogStreams svc h3 g s = Inr []"
    and stream_created: "CreateLogStream svc (h3 @ [Call_DescribeLogStreams g s]) g s = Inr ()"
    and group_found: "DescribeLogGroups svc
        (h3 @ [Call_DescribeLogStreams g s, Call_CreateLogStream g s]) g = Inr LogGroups2"
      "g \<in> set LogGroups2"
    and one_stream: "DescribeLogStreams svc
        (h3 @ [Call_DescribeLogStreams g s, Call_CreateLogStream g s, Call_DescribeLogGroups g])
        g s = Inr [\<lparr>ls_Name = name, UploadSequenceToken = None\<rparr>]"
    and appended: "PutLogEvents svc
        (h3 @ [Call_DescribeLogStreams g s, Call_CreateLogStream g s, Call_DescribeLogGroups g,
               Call_DescribeLogStreams g s])
        (paramsOf batch None) = Inr NextSequenceToken"
  shows "Start_step svc adapter u batch =
     Some (u\<lparr>tokens := (case NextSequenceToken of
                           None \<Rightarrow> tokens u
                         | Some t \<Rightarrow> (tokens u)(Container (Msgs batch ! 0) \<mapsto> t)),
             history := h3 @
               [Call_DescribeLogStreams g s, Call_CreateLogStream g s, Call_DescribeLogGroups g,
                Call_DescribeLogStreams g s, Call_PutLogEvents (paramsOf batch None)]\<rparr>)"
proof -
  let ?msg = "Msgs batch ! 0"
  let ?h5 = "h3 @ [Call_DescribeLogStreams g s, Call_CreateLogStream g s]"
  have rg1: "resolveGroup svc adapter (Group ?msg) (history u) = (None, h3)"
    using no_group group_created retention_set
    by (simp add: resolveGroup_def groupExists_def matchGroup_iff createGroup_def
        createGroupRetentionPolicy_def g_def h3_def retention_def
        split: option.splits)
  have rg2: "resolveGroup svc adapter (Group ?msg) ?h5 = (None, ?h5 @ [Call_DescribeLogGroups g])"
    using group_found
    by (simp add: resolveGroup_def groupExists_def matchGroup_iff g_def s_def)
  have gst2: "getSequenceToken svc adapter ?msg ?h5 =
      Some (Inr None, ?h5 @ [Call_DescribeLogGroups g, Call_DescribeLogStreams g s])"
    using one_stream
    by (subst getSequenceToken_unfold) (simp add: rg2 [unfolded g_def s_def] g_def s_def)
  have gst1: "getSequenceToken svc adapter ?msg (history u) =
      Some (Inr None, ?h5 @ [Call_DescribeLogGroups g, Call_DescribeLogStreams g s])"
    using no_stream stream_created gst2
    by (subst getSequenceToken_unfold) (simp add: rg1 g_def s_def)
  have tok: "Start_token svc adapter u ?msg =
      Some (Inr None,
            u\<lparr>history := ?h5 @ [Call_DescribeLogGroups g, Call_DescribeLogStreams g s]\<rparr>)"
    using uncached gst1 by (simp add: Start_token_def g_def s_def)
  show ?thesis
    using nonempty tok appended
    by (simp add: Start_step_def Start_post_def paramsOf_def buildEvents_append Let_def
        g_def s_def split: option.splits)
qed

theorem fresh_destination_call_sequence_witness:
  "Start_step aws adapter0 uploader0 batch_c1 =
     Some (uploader0\<lparr>tokens := [''c1'' \<mapsto> ''token-i''],
             history :=
               [Call_DescribeLogGroups ''app'', Call_CreateLogGroup ''app'',
                Call_PutRetentionPolicy ''app'' 7,
                Call_DescribeLogStreams ''app'' ''web-1'', Call_CreateLogStream ''app'' ''web-1'',
                Call_DescribeLogGroups ''app'', Call_DescribeLogStreams ''app'' ''web-1'',
                Call_PutLogEvents (paramsOf batch_c1 None)]\<rparr>)"
  using fresh_destination_call_sequence [where svc = aws and adapter = adapter0
      and u = uploader0 and batch = batch_c1 and ?LogGroups1.0 = "[]"
      and ?LogGroups2.0 = "[''app'']" and name = "''web-1''"
      and NextSequenceToken = "Some ''token-i''"]
  by (simp add: aws_def adapter0_def uploader0_def batch_c1_def paramsOf_def eventOf_def
      token_of_def)

text \<open>
  The claim as stated fails on the well-behaved service: the requests sent are the
  eight below, with the second group listing, and not the seven of the claim.
\<close>

theorem fresh_destination_counterexample:
  "map_option history (Start_step aws adapter0 uploader0 batch_c1) =
     Some [Call_DescribeLogGroups ''app'', Call_CreateLogGroup ''app'',
           Call_PutRetentionPolicy ''app'' 7,
           Call_DescribeLogStreams ''app'' ''web-1'', Call_CreateLogStream ''app'' ''web-1'',
           Call_DescribeLogGroups ''app'', Call_DescribeLogStreams ''app'' ''web-1'',
           Call_PutLogEvents
             \<lparr>LogEvents = [\<lparr>ev_Message = ''one'', ev_Timestamp = 1500000000123\<rparr>,
                           \<lparr>ev_Message = ''two'', ev_Timestamp = 1500000000123\<rparr>,
                           \<lparr>ev_Message = ''three'', ev_Timestamp = 1500000001000\<rparr>],
              LogGroupName = ''app'', LogStreamName = ''web-1'', SequenceToken = None\<rparr>] \<and>
   map_option history (Start_step aws adapter0 uploader0 batch_c1) \<noteq>
     Some [Call_DescribeLogGroups ''app'', Call_CreateLogGroup ''app'',
           Call_PutRetentionPolicy ''app'' 7,
           Call_DescribeLogStreams ''app'' ''web-1'', Call_CreateLogStream ''app'' ''web-1'',
           Call_DescribeLogStreams ''app'' ''web-1'',
           Call_PutLogEvents
             \<lparr>LogEvents = [\<lparr>ev_Message = ''one'', ev_Timestamp = 1500000000123\<rparr>,
                           \<lparr>ev_Message = ''two'', ev_Timestamp = 1500000000123\<rparr>,
                           \<lparr>ev_Message = ''three'', ev_Timestamp = 1500000001000\<rparr>],
              LogGroupName = ''app'', LogStreamName = ''web-1'', SequenceToken = None\<rparr>]"
  by (simp add: run_fresh)

subsection \<open>C5: the next batch for a destination with a cached token\<close>

text \<open>
  C5. Once a token has been cached after a successful append for a destination, the next
  batch for that destination is to be sent with this token and without any listing or
  creation request.

  The cache is keyed by the container and not by the destination (see C1). The run
  below evaluates the code where the next batch for the destination comes from another
  container: after the first batch the cache holds \<open>''token-i''\<close> for the destination's
  only writer so far, and the batch of \<open>''c2''\<close> for the same destination lists the
  groups and the streams again before it is appended. (For a batch of the same
  container the claim holds: \<open>cached_token_round_trip\<close>.)
\<close>

theorem cached_token_ignored_for_other_container:
  "map_option (\<lambda>u. tokens u ''c1'') (Start aws adapter0 uploader0 [batch_c1]) =
     Some (Some ''token-i'') \<and>
   map_option (\<lambda>u. drop 8 (history u)) (Start aws adapter0 uploader0 [batch_c1, batch_c2]) =
     Some [Call_DescribeLogGroups ''app'', Call_DescribeLogStreams ''app'' ''web-1'',
           Call_PutLogEvents
             \<lparr>LogEvents = [\<lparr>ev_Message = ''four'', ev_Timestamp = 1500000002000\<rparr>],
              LogGroupName = ''app'', LogStreamName = ''web-1'',
              SequenceToken = Some ''token-i''\<rparr>]"
  unfolding run_two_containers by (simp add: run_fresh)

subsection \<open>C6: more than one matching stream\<close>



subsection \<open>C7: a failed append\<close>

text \<open>
  C7 says that a failed append leaves the cache state unchanged. The code stores the
  token it fetched from the stream listing (line 79) before it sends the append, so the
  cache can have gained an entry although the append failed.

  C7, as amended. When the append of a non-empty batch fails, the batch is dropped
  without a retry: the requests of the step hold exactly one append. Every token that
  was cached before the batch is still cached with the same value, and the cache is
  either unchanged or, when the container of the batch's first message had no cached
  token, extended at that container by the token the stream listing returned. The loop
  goes on with the following batches.
\<close>

theorem failed_append_keeps_cached_tokens:
  assumes "Msgs batch \<noteq> []"
    and "Start_token svc adapter u (Msgs batch ! 0) = Some (Inr token, u1)"
    and "PutLogEvents svc (history u1) (paramsOf batch token) = Inl err"
  shows "\<exists>u'. Start_step svc adapter u batch = Some u' \<and>
           filter isPutLogEvents (drop (length (history u)) (history u'))
             = [Call_PutLogEvents (paramsOf batch token)] \<and>
           tokens u' = tokens u1 \<and>
           (\<forall>k t. tokens u k = Some t \<longrightarrow> tokens u' k = Some t) \<and>
           (tokens u' = tokens u \<or>
            (tokens u (Container (Msgs batch ! 0)) = None \<and>
             (\<exists>t. token = Some t \<and> tokens u' = (tokens u)(Container (Msgs batch ! 0) \<mapsto> t)))) \<and>
           Start svc adapter u (batch # rest) = Start svc adapter u' rest"
proof -
  let ?u' = "u1\<lparr>history := history u1 @ [Call_PutLogEvents (paramsOf batch token)]\<rparr>"
  have post: "Start_post svc u1 batch (Msgs batch ! 0) token = ?u'"
    using assms(3)
    by (simp add: Start_post_def paramsOf_def buildEvents_append Let_def)
  have step: "Start_step svc adapter u batch = Some ?u'"
    using assms(1,2) post by (simp add: Start_step_def)
  from Start_token_result [OF assms(2)] obtain cs where
    cs: "history u1 = history u @ cs" "\<forall>c\<in>set cs. \<not> isPutLogEvents c"
    and tk: "tokens u1 = tokens u \<or>
          (tokens u (Container (Msgs batch ! 0)) = None \<and>
           (\<exists>t. token = Some t \<and> tokens u1 = (tokens u)(Container (Msgs batch ! 0) \<mapsto> t)))"
    by auto
  have f: "filter isPutLogEvents (drop (length (history u)) (history ?u'))
             = [Call_PutLogEvents (paramsOf batch token)]"
    using cs by simp
  have keep: "\<forall>k t. tokens u k = Some t \<longrightarrow> tokens ?u' k = Some t"
    using tk by auto
  show ?thesis
    using step f keep tk by (intro exI [of _ ?u']) simp
qed

theorem failed_append_keeps_cached_tokens_witness:
  "\<exists>u'. Start_step aws_append_down adapter0 uploader0 batch_c1 = Some u' \<and>
     filter isPutLogEvents (drop (length (history uploader0)) (history u'))
       = [Call_PutLogEvents (paramsOf batch_c1 (Some ''T0''))] \<and>
     tokens u' = [''c1'' \<mapsto> ''T0''] \<and>
     Start aws_append_down adapter0 uploader0 [batch_c1, batch_c2] =
       Start aws_append_down adapter0 u' [batch_c2]"
proof -
  have ne: "Msgs batch_c1 \<noteq> []" by (simp add: batch_c1_def)
  have down: "PutLogEvents aws_append_down
      (history \<lparr>tokens = [''c1'' \<mapsto> ''T0''],
            history = [Call_DescribeLogGroups ''app'', Call_DescribeLogStreams ''app'' ''web-1'']\<rparr>)
      (paramsOf batch_c1 (Some ''T0'')) = Inl ''ServiceUnavailableException''"
    by (simp add: aws_append_down_def)
  from failed_append_keeps_cached_tokens [OF ne run_append_down down, of "[batch_c2]"]
  show ?thesis by auto
qed

text \<open>
  The claim as stated fails on a service that has the stream with the token \<open>''T0''\<close>
  and fails the append: the cache was empty before the batch and holds \<open>''T0''\<close> for the
  container after it.
\<close>

theorem failed_append_counterexample:
  "tokens uploader0 = Map.empty \<and>
   map_option (\<lambda>u. (tokens u ''c1'', history u))
     (Start_step aws_append_down adapter0 uploader0 batch_c1) =
     Some (Some ''T0'',
           [Call_DescribeLogGroups ''app'', Call_DescribeLogStreams ''app'' ''web-1'',
            Call_PutLogEvents
              \<lparr>LogEvents = [\<lparr>ev_Message = ''one'', ev_Timestamp = 1500000000123\<rparr>,
                            \<lparr>ev_Message = ''two'', ev_Timestamp = 1500000000123\<rparr>,
                            \<lparr>ev_Message = ''three'', ev_Timestamp = 1500000001000\<rparr>],
               LogGroupName = ''app'', LogStreamName = ''web-1'',
               SequenceToken = Some ''T0''\<rparr>]) \<and>
   PutLogEvents aws_append_down
     [Call_DescribeLogGroups ''app'', Call_DescribeLogStreams ''app'' ''web-1'']
     \<lparr>LogEvents = [\<lparr>ev_Message = ''one'', ev_Timestamp = 1500000000123\<rparr>,
                   \<lparr>ev_Message = ''two'', ev_Timestamp = 1500000000123\<rparr>,
                   \<lparr>ev_Message = ''three'', ev_Timestamp = 1500000001000\<rparr>],
      LogGroupName = ''app'', LogStreamName = ''web-1'',
      SequenceToken = Some ''T0''\<rparr> = Inl ''ServiceUnavailableException''"
  by (simp add: eval_defs aws_append_down_def)

subsection \<open>C8: a group exists only on an exact match of its name\<close>

text \<open>
  C8. The group-existence check lists the groups by name prefix and answers that the
  group exists exactly when the listing holds a group whose name equals the target name:
  whatever the listing returns, the answer is \<open>grp \<in> set LogGroups\<close>, so a listed group
  whose name only extends the prefix does not count. One request is sent.
\<close>

theorem groupExists_exact_match:
  assumes "DescribeLogGroups svc h grp = Inr LogGroups"
  shows "groupExists svc grp h = (Inr (grp \<in> set LogGroups), h @ [Call_DescribeLogGroups grp])"
  using assms by (simp add: groupExists_def matchGroup_iff)

text \<open>
  A listing for \<open>''app''\<close> that holds \<open>''app-staging''\<close> and \<open>''application''\<close> only: the
  group does not exist.
\<close>

theorem groupExists_exact_match_witness:
  "groupExists aws_longer_names ''app'' [] = (Inr False, [Call_DescribeLogGroups ''app''])"
  using groupExists_exact_match [of aws_longer_names "[]" "''app''" "[''app-staging'', ''application'']"]
  by (simp add: aws_longer_names_def)

subsection \<open>C9: the events of a batch\<close>

text \<open>
  C9. For every non-empty batch that reaches the append (the token phase returned a
  token, absent or not), the step sends one append request after the requests of the
  token phase, and its event list is the list of the batch's messages, in the same order and
  one event for each message, with the message's text and its arrival time in
  nanoseconds divided by 1000000 with truncation, that is, in milliseconds.
\<close>

theorem Start_step_events:
  assumes "Msgs batch \<noteq> []"
    and "Start_token svc adapter u (Msgs batch ! 0) = Some (Inr token, u1)"
  shows "\<exists>u'. Start_step svc adapter u batch = Some u' \<and>
           history u' = history u1 @
             [Call_PutLogEvents
                \<lparr>LogEvents = map (\<lambda>msg. \<lparr>ev_Message = Message msg,
                                         ev_Timestamp = Time msg sdiv 1000000\<rparr>) (Msgs batch),
                 LogGroupName = Group (Msgs batch ! 0),
                 LogStreamName = Stream (Msgs batch ! 0),
                 SequenceToken = token\<rparr>]"
  using assms Start_post_history [of svc u1 batch token]
  by (simp add: Start_step_def paramsOf_def eventOf_def)

text \<open>The batch of three messages, sent to a fresh service.\<close>

theorem Start_step_events_witness:
  "\<exists>u'. Start_step aws adapter0 uploader0 batch_c1 = Some u' \<and>
     history u' =
       [Call_DescribeLogGroups ''app'', Call_CreateLogGroup ''app'',
        Call_PutRetentionPolicy ''app'' 7, Call_DescribeLogStreams ''app'' ''web-1'',
        Call_CreateLogStream ''app'' ''web-1'', Call_DescribeLogGroups ''app'',
        Call_DescribeLogStreams ''app'' ''web-1'',
        Call_PutLogEvents
          \<lparr>LogEvents = [\<lparr>ev_Message = ''one'', ev_Timestamp = 1500000000123\<rparr>,
                        \<lparr>ev_Message = ''two'', ev_Timestamp = 1500000000123\<rparr>,
                        \<lparr>ev_Message = ''three'', ev_Timestamp = 1500000001000\<rparr>],
           LogGroupName = ''app'', LogStreamName = ''web-1'', SequenceToken = None\<rparr>]"
proof -
  have ne: "Msgs batch_c1 \<noteq> []" by (simp add: batch_c1_def)
  have tok: "Start_token aws adapter0 uploader0 (Msgs batch_c1 ! 0) =
     Some (Inr None,
           \<lparr>tokens = Map.empty,
            history = [Call_DescribeLogGroups ''app'', Call_CreateLogGroup ''app'',
              Call_PutRetentionPolicy ''app'' 7, Call_DescribeLogStreams ''app'' ''web-1'',
              Call_CreateLogStream ''app'' ''web-1'', Call_DescribeLogGroups ''app'',
              Call_DescribeLogStreams ''app'' ''web-1'']\<rparr>)"
    by (simp add: eval_defs aws_def)
  from Start_step_events [OF ne tok] show ?thesis
    by (simp add: batch_c1_def)
qed

subsection \<open>C10: a message whose container cannot be inspected is discarded\<close>

text \<open>
  C10. When the container of an incoming message has no cached group name or no cached
  stream name and inspecting the container fails, the adapter's state after the message
  is its state before it: nothing was sent to the batcher, and no group name, stream name
  or retention entry was cached. The loop goes on with the next message.
\<close>

theorem Stream_step_inspect_fails:
  assumes "groupnames a (Container_ID m) = None \<or> streamnames a (Container_ID m) = None"
    and "InspectContainer c (Container_ID m) = Inl err"
  shows "Stream_step c a m now = a \<and>
         Stream_loop c a ((m, now) # rest) = Stream_loop c a rest"
proof -
  have "Stream_step c a m now = a"
    using assms by (auto simp: Stream_step_def Let_def split: option.splits)
  then show ?thesis by simp
qed

theorem Stream_step_inspect_fails_witness:
  "Stream_step docker_down adapter0 line0 1500000000000000000 = adapter0 \<and>
   batcher_Input (Stream_loop docker_down adapter0 [(line0, 1500000000000000000)]) = []"
  using Stream_step_inspect_fails [of adapter0 line0 docker_down "''No such container''"
      1500000000000000000 "[]"]
  by (simp add: adapter0_def line0_def docker_down_def)

end
